theory Spec2Isabelle
  imports Complex_Main "HOL-Library.Sublist" "HOL-Library.Char_ord" "HOL-Library.List_Lexorder"
begin

section \<open>Data model of \<open>scripts/2_face_crop_resize.py\<close>\<close>

text \<open>
  Python floats that are only compared, truncated or divided by a power of two are
  modelled as rationals; Python integers as \<open>int\<close>; array dimensions and lengths as
  \<open>nat\<close>. A path is the pair of its parent directory and its final component.
\<close>

type_synonym bytes = string
type_synonym path = "string \<times> string"

text \<open>A decoded image (a numpy array of shape \<open>(rows, cols, chans)\<close>).\<close>

record image =
  rows :: nat
  cols :: nat
  chans :: nat
  pixel :: "nat \<Rightarrow> nat \<Rightarrow> nat list"

text \<open>A detected face: \<open>bbox\<close> is \<open>(x1, y1, x2, y2)\<close>; \<open>det_score\<close> is absent when the
  object has no such attribute.\<close>

record face =
  bbox :: "rat \<times> rat \<times> rat \<times> rat"
  det_score :: "rat option"

text \<open>The configuration dictionary, its sections flattened; every key is present.\<close>

record config =
  processing_renamed :: string
  processing_cropped :: string
  processing_failed :: string
  padding_width_factor :: rat
  padding_height_factor :: rat
  intermediate_size :: "nat \<times> nat"
  target_size :: "nat \<times> nat"
  min_face_confidence :: rat
  max_file_size_kb :: int
  jpeg_quality_start :: int
  jpeg_quality_min :: int
  jpeg_quality_step :: int
  supported_formats :: "string list"

section \<open>Crop geometry\<close>

text \<open>\<open>clamp\<close>, lines 118-120.\<close>

definition clamp :: "int \<Rightarrow> int \<Rightarrow> int \<Rightarrow> int" where
  "clamp val minval maxval = max (min val maxval) minval"

text \<open>Python's \<open>int(x)\<close> on a number: truncation towards zero.\<close>

definition py_int :: "rat \<Rightarrow> int" where
  "py_int x = (if 0 \<le> x then \<lfloor>x\<rfloor> else \<lceil>x\<rceil>)"

text \<open>\<open>calculate_crop_region\<close>, lines 122-138. \<open>image_shape\<close> is \<open>(rows, cols, chans)\<close>.\<close>

definition calculate_crop_region ::
  "config \<Rightarrow> face \<Rightarrow> nat \<times> nat \<times> nat \<Rightarrow> int \<times> int \<times> int \<times> int" where
  "calculate_crop_region cfg f image_shape =
     (case bbox f of (b0, b1, b2, b3) \<Rightarrow>
      case image_shape of (shape0, shape1, shape2) \<Rightarrow>
        let x1 = py_int b0; y1 = py_int b1; x2 = py_int b2; y2 = py_int b3;
            w = x2 - x1; h = y2 - y1;
            cx = (x1 + x2) div 2; cy = (y1 + y2) div 2;
            pad_w = py_int (of_int w * padding_width_factor cfg);
            pad_h = py_int (of_int h * padding_height_factor cfg);
            x1_crop = clamp (cx - pad_w) 0 (int shape1);
            y1_crop = clamp (cy - pad_h) 0 (int shape0);
            x2_crop = clamp (cx + pad_w) 0 (int shape1);
            y2_crop = clamp (cy + pad_h) 0 (int shape0)
        in (x1_crop, y1_crop, x2_crop, y2_crop))"

section \<open>Exceptions, collaborators and the world\<close>

text \<open>
  A raised exception is a value. \<open>Exception\<close> is the one the script raises itself
  (line 284); \<open>OSError\<close> comes from the file system; \<open>CvError\<close> and \<open>DetectorError\<close>
  are raised inside OpenCV and the face-analysis engine; \<open>ValueError\<close> by \<open>max\<close> on
  an empty sequence. All of them are subclasses of Python's \<open>Exception\<close>.
\<close>

datatype exn =
  Exception string
  | OSError string
  | CvError string
  | DetectorError string
  | ValueError string

fun str_exn :: "exn \<Rightarrow> string" where
  "str_exn (Exception m) = m"
| "str_exn (OSError m) = m"
| "str_exn (CvError m) = m"
| "str_exn (DetectorError m) = m"
| "str_exn (ValueError m) = m"

text \<open>
  The external collaborators, as functions of their arguments: the decoder behind
  \<open>cv2.imread\<close> (\<open>None\<close> for undecodable bytes), \<open>self.app.get\<close>, \<open>cv2.resize\<close>,
  \<open>cv2.filter2D\<close> with the 3x3 Gaussian kernel, \<open>cv2.imencode\<close> (which reports failure
  through its flag: \<open>None\<close> when the flag is false), and the successive readings of
  \<open>datetime.now()\<close> in seconds. \<open>Inl m\<close> is an exception with message \<open>m\<close> raised
  inside the library.
\<close>

record env =
  decode :: "bytes \<Rightarrow> image option"
  detect :: "image \<Rightarrow> string + face list"
  resize :: "image \<Rightarrow> nat \<times> nat \<Rightarrow> string + image"
  filter2D :: "image \<Rightarrow> string + image"
  imencode :: "image \<Rightarrow> int \<Rightarrow> bytes option"
  now :: "nat \<Rightarrow> rat"

text \<open>The file system (files by path, existing directories) and the number of clock
  readings taken so far.\<close>

record world =
  files :: "path \<Rightarrow> bytes option"
  dirs :: "string set"
  ticks :: nat

text \<open>\<open>cv2.imread\<close> returns \<open>None\<close> for a missing or undecodable file.\<close>

definition cv2_imread :: "env \<Rightarrow> world \<Rightarrow> path \<Rightarrow> image option" where
  "cv2_imread e w p = (case files w p of None \<Rightarrow> None | Some b \<Rightarrow> decode e b)"

text \<open>\<open>open(path, "wb")\<close> followed by \<open>f.write\<close>: fails when the parent directory does
  not exist, otherwise creates or replaces the file.\<close>

definition write_file :: "world \<Rightarrow> path \<Rightarrow> bytes \<Rightarrow> exn + world" where
  "write_file w p b =
     (if fst p \<in> dirs w then Inr (w\<lparr>files := (files w)(p \<mapsto> b)\<rparr>)
      else Inl (OSError ''[Errno 2] No such file or directory''))"

text \<open>\<open>Path.rename\<close> (POSIX): fails when the source is missing or the target directory
  does not exist, otherwise moves the bytes, replacing a file of the same name.\<close>

definition rename_path :: "world \<Rightarrow> path \<Rightarrow> path \<Rightarrow> exn + world" where
  "rename_path w src dst =
     (case files w src of
        None \<Rightarrow> Inl (OSError ''[Errno 2] No such file or directory'')
      | Some b \<Rightarrow>
          if fst dst \<in> dirs w then Inr (w\<lparr>files := ((files w)(src := None))(dst \<mapsto> b)\<rparr>)
          else Inl (OSError ''[Errno 2] No such file or directory''))"

text \<open>\<open>Path.mkdir(exist_ok=True)\<close>; \<open>run\<close> has created the directory before the first
  batch (lines 385-386), so creation is taken to succeed.\<close>

definition mkdir_exist_ok :: "world \<Rightarrow> string \<Rightarrow> world" where
  "mkdir_exist_ok w d = w\<lparr>dirs := insert d (dirs w)\<rparr>"

text \<open>\<open>image[y1:y2, x1:x2]\<close> for bounds between 0 and the array's dimensions (which
  \<open>clamp\<close> guarantees), and \<open>ndarray.size\<close>.\<close>

definition slice_image :: "image \<Rightarrow> int \<Rightarrow> int \<Rightarrow> int \<Rightarrow> int \<Rightarrow> image" where
  "slice_image img y1 y2 x1 x2 =
     \<lparr>rows = nat (y2 - y1), cols = nat (x2 - x1), chans = chans img,
      pixel = (\<lambda>r c. pixel img (nat y1 + r) (nat x1 + c))\<rparr>"

definition array_size :: "image \<Rightarrow> nat" where
  "array_size img = rows img * cols img * chans img"

text \<open>\<open>Path.stem\<close>: the name without its last suffix.\<close>

definition stem :: "string \<Rightarrow> string" where
  "stem name =
     (let n = length (takeWhile (\<lambda>c. c \<noteq> CHR ''.'') (rev name))
      in if CHR ''.'' \<in> set name \<and> 0 < n \<and> n + 1 < length name
         then take (length name - n - 1) name else name)"

section \<open>Face selection\<close>

text \<open>Python's \<open>max(xs, key=k)\<close>: the first element whose key is maximal; \<open>ValueError\<close>
  on an empty sequence.\<close>

fun max_by :: "('a \<Rightarrow> rat) \<Rightarrow> 'a \<Rightarrow> 'a list \<Rightarrow> 'a" where
  "max_by k best [] = best"
| "max_by k best (x # xs) = (if k best < k x then max_by k x xs else max_by k best xs)"

definition py_max :: "('a \<Rightarrow> rat) \<Rightarrow> 'a list \<Rightarrow> exn + 'a" where
  "py_max k xs =
     (case xs of
        [] \<Rightarrow> Inl (ValueError ''max() arg is an empty sequence'')
      | x # rest \<Rightarrow> Inr (max_by k x rest))"

text \<open>The ranking key of line 179, \<open>f.bbox[2] * f.bbox[3]\<close>, and the selection.\<close>

definition face_key :: "face \<Rightarrow> rat" where
  "face_key f = (case bbox f of (b0, b1, b2, b3) \<Rightarrow> b2 * b3)"

definition select_face :: "face list \<Rightarrow> exn + face" where
  "select_face faces = py_max face_key faces"

text \<open>The bounding-box area the specification ranks by, width times height.\<close>

definition bbox_area :: "face \<Rightarrow> rat" where
  "bbox_area f = (case bbox f of (b0, b1, b2, b3) \<Rightarrow> (b2 - b0) * (b3 - b1))"

text \<open>The specification's selector: the first candidate of maximal area.\<close>

definition spec_select_face :: "face list \<Rightarrow> exn + face" where
  "spec_select_face faces = py_max bbox_area faces"

section \<open>Results\<close>

text \<open>The error message of a result; the rendering of numbers into text is left out.\<close>

datatype message =
  NoMessage
  | FailedToReadImage
  | NoFaceDetected
  | ConfidenceBelowThreshold rat rat
  | CroppedRegionEmpty
  | ExceptionText string

record ProcessingResult =
  filename :: string
  success :: bool
  face_detected :: bool
  face_confidence :: rat
  original_size :: "nat \<times> nat"
  output_size :: "nat \<times> nat"
  file_size_kb :: rat
  jpeg_quality :: int
  error_message :: message
  processing_time :: rat

section \<open>Quality-optimised encoding\<close>

text \<open>
  \<open>_save_with_quality_optimization\<close>, lines 259-284. \<open>save_loop\<close> is the \<open>while\<close> loop
  of lines 267-274 entered with the current \<open>quality\<close>, followed, once the loop
  condition fails, by the forced encode of lines 277-284. The loop need not
  terminate: \<open>None\<close> is the run that never returns. A returned \<open>Inl\<close> is a raised
  exception, a returned \<open>Inr\<close> the pair \<open>(quality, file_size_kb)\<close> with the world after
  the write.
\<close>

partial_function (option) save_loop ::
  "config \<Rightarrow> env \<Rightarrow> image \<Rightarrow> path \<Rightarrow> world \<Rightarrow> int \<Rightarrow> (exn + (int \<times> rat) \<times> world) option" where
  "save_loop cfg e img output_path w quality =
     (if jpeg_quality_min cfg \<le> quality then
        (case imencode e img quality of
           None \<Rightarrow> save_loop cfg e img output_path w (quality - jpeg_quality_step cfg)
         | Some enc_img \<Rightarrow>
             if int (length enc_img) \<le> max_file_size_kb cfg * 1024 then
               (case write_file w output_path enc_img of
                  Inl x \<Rightarrow> Some (Inl x)
                | Inr w' \<Rightarrow> Some (Inr ((quality, of_nat (length enc_img) / 1024), w')))
             else save_loop cfg e img output_path w (quality - jpeg_quality_step cfg))
      else
        (case imencode e img (jpeg_quality_min cfg) of
           None \<Rightarrow> Some (Inl (Exception ''Failed to encode image''))
         | Some enc_img \<Rightarrow>
             (case write_file w output_path enc_img of
                Inl x \<Rightarrow> Some (Inl x)
              | Inr w' \<Rightarrow>
                  Some (Inr ((jpeg_quality_min cfg, of_nat (length enc_img) / 1024), w')))))"

definition save_with_quality_optimization ::
  "config \<Rightarrow> env \<Rightarrow> image \<Rightarrow> path \<Rightarrow> world \<Rightarrow> (exn + (int \<times> rat) \<times> world) option" where
  "save_with_quality_optimization cfg e img output_path w =
     save_loop cfg e img output_path w (jpeg_quality_start cfg)"

text \<open>A quality meets the budget when its encode succeeds within
  \<open>max_file_size_kb * 1024\<close> bytes (the test of line 269).\<close>

definition fits :: "config \<Rightarrow> env \<Rightarrow> image \<Rightarrow> int \<Rightarrow> bool" where
  "fits cfg e img q =
     (case imencode e img q of
        Some enc_img \<Rightarrow> int (length enc_img) \<le> max_file_size_kb cfg * 1024
      | None \<Rightarrow> False)"

text \<open>The specification's descending ladder: \<open>q, q - step, ...\<close> while at least
  \<open>quality_min\<close>, for a step of at least 1.\<close>

function ladder_from :: "int \<Rightarrow> int \<Rightarrow> int \<Rightarrow> int list" where
  "ladder_from q qmin qstep =
     (if qmin \<le> q \<and> 1 \<le> qstep then q # ladder_from (q - qstep) qmin qstep else [])"
  by pat_completeness auto
termination
  by (relation "measure (\<lambda>(q, qmin, qstep). nat (q - qmin + 1))") auto

definition ladder :: "config \<Rightarrow> int list" where
  "ladder cfg = ladder_from (jpeg_quality_start cfg) (jpeg_quality_min cfg) (jpeg_quality_step cfg)"

section \<open>The per-image pipeline\<close>

text \<open>
  The body of the \<open>try\<close> block of \<open>process_single_image\<close>, lines 146-242, run in the
  world \<open>w\<close> reached after \<open>start_time\<close> was read. \<open>Inl\<close> is an exception raised inside
  the block; no effect on the world precedes a raise.
\<close>

definition process_body ::
  "config \<Rightarrow> env \<Rightarrow> world \<Rightarrow> path \<Rightarrow> rat \<Rightarrow> (exn + ProcessingResult \<times> world) option" where
  "process_body cfg e w image_path start_time =
     (case cv2_imread e w image_path of
        None \<Rightarrow>
          Some (Inr (\<lparr>filename = snd image_path, success = False, face_detected = False,
                      face_confidence = 0, original_size = (0, 0), output_size = (0, 0),
                      file_size_kb = 0, jpeg_quality = 0,
                      error_message = FailedToReadImage, processing_time = 0\<rparr>, w))
      | Some img \<Rightarrow>
     (case detect e img of
        Inl m \<Rightarrow> Some (Inl (DetectorError m))
      | Inr faces \<Rightarrow>
     if faces = [] then
          Some (Inr (\<lparr>filename = snd image_path, success = False, face_detected = False,
                      face_confidence = 0, original_size = (cols img, rows img),
                      output_size = (0, 0), file_size_kb = 0, jpeg_quality = 0,
                      error_message = NoFaceDetected, processing_time = 0\<rparr>, w))
     else
     (case select_face faces of
        Inl x \<Rightarrow> Some (Inl x)
      | Inr f \<Rightarrow>
     let conf = (case det_score f of Some s \<Rightarrow> s | None \<Rightarrow> 1) in
     if conf < min_face_confidence cfg then
          Some (Inr (\<lparr>filename = snd image_path, success = False, face_detected = True,
                      face_confidence = conf, original_size = (cols img, rows img),
                      output_size = (0, 0), file_size_kb = 0, jpeg_quality = 0,
                      error_message = ConfidenceBelowThreshold conf (min_face_confidence cfg),
                      processing_time = 0\<rparr>, w))
     else
     (case calculate_crop_region cfg f (rows img, cols img, chans img) of
        (x1, y1, x2, y2) \<Rightarrow>
     let cropped = slice_image img y1 y2 x1 x2 in
     if array_size cropped = 0 then
          Some (Inr (\<lparr>filename = snd image_path, success = False, face_detected = True,
                      face_confidence = conf, original_size = (cols img, rows img),
                      output_size = (0, 0), file_size_kb = 0, jpeg_quality = 0,
                      error_message = CroppedRegionEmpty, processing_time = 0\<rparr>, w))
     else
     (case resize e cropped (intermediate_size cfg) of
        Inl m \<Rightarrow> Some (Inl (CvError m))
      | Inr intermediate \<Rightarrow>
     (case resize e intermediate (target_size cfg) of
        Inl m \<Rightarrow> Some (Inl (CvError m))
      | Inr resized \<Rightarrow>
     (case filter2D e resized of
        Inl m \<Rightarrow> Some (Inl (CvError m))
      | Inr sharpened \<Rightarrow>
     (case save_with_quality_optimization cfg e sharpened
             (processing_cropped cfg, stem (snd image_path) @ ''.jpg'') w of
        None \<Rightarrow> None
      | Some (Inl x) \<Rightarrow> Some (Inl x)
      | Some (Inr ((quality, size_kb), w')) \<Rightarrow>
          Some (Inr (\<lparr>filename = snd image_path, success = True, face_detected = True,
                      face_confidence = conf, original_size = (cols img, rows img),
                      output_size = target_size cfg, file_size_kb = size_kb,
                      jpeg_quality = quality, error_message = NoMessage,
                      processing_time = now e (ticks w') - start_time\<rparr>,
                     w'\<lparr>ticks := Suc (ticks w')\<rparr>))))))))))"

text \<open>
  \<open>process_single_image\<close>, lines 140-257: \<open>start_time\<close> is read, the body runs, and the
  handler of lines 244-257 turns an exception into a failed result that carries its
  message and the time elapsed since \<open>start_time\<close>.
\<close>

definition process_single_image ::
  "config \<Rightarrow> env \<Rightarrow> world \<Rightarrow> path \<Rightarrow> (ProcessingResult \<times> world) option" where
  "process_single_image cfg e w image_path =
     (let start_time = now e (ticks w);
          w1 = w\<lparr>ticks := Suc (ticks w)\<rparr>
      in case process_body cfg e w1 image_path start_time of
           None \<Rightarrow> None
         | Some (Inr (result, w2)) \<Rightarrow> Some (result, w2)
         | Some (Inl x) \<Rightarrow>
             Some (\<lparr>filename = snd image_path, success = False, face_detected = False,
                    face_confidence = 0, original_size = (0, 0), output_size = (0, 0),
                    file_size_kb = 0, jpeg_quality = 0,
                    error_message = ExceptionText (str_exn x),
                    processing_time = now e (ticks w1) - start_time\<rparr>,
                   w1\<lparr>ticks := Suc (ticks w1)\<rparr>))"

section \<open>Batch processing\<close>

text \<open>\<open>self.stats\<close>, lines 55-61.\<close>

record statistics =
  total_files :: nat
  successful :: nat
  failed :: nat
  no_face :: nat
  poor_quality :: nat

definition initial_stats :: statistics where
  "initial_stats = \<lparr>total_files = 0, successful = 0, failed = 0, no_face = 0, poor_quality = 0\<rparr>"

text \<open>The log lines written by \<open>process_batch\<close>: the info line of a success, the
  warning of a failure, the error of a failed move.\<close>

datatype log_entry =
  LogInfo ProcessingResult
  | LogWarning string message
  | LogError string exn

text \<open>The state of the processor during a batch.\<close>

record pstate =
  the_world :: world
  stats :: statistics
  logged :: "log_entry list"

text \<open>The statistics update of lines 308-316.\<close>

definition update_statistics :: "config \<Rightarrow> ProcessingResult \<Rightarrow> statistics \<Rightarrow> statistics" where
  "update_statistics cfg result s =
     (let s1 = s\<lparr>total_files := total_files s + 1\<rparr>
      in if success result then s1\<lparr>successful := successful s1 + 1\<rparr>
         else if \<not> face_detected result then s1\<lparr>no_face := no_face s1 + 1\<rparr>
         else if face_confidence result < min_face_confidence cfg
           then s1\<lparr>poor_quality := poor_quality s1 + 1\<rparr>
         else s1\<lparr>failed := failed s1 + 1\<rparr>)"

text \<open>Logging and quarantine, lines 319-331.\<close>

definition log_and_quarantine ::
  "config \<Rightarrow> path \<Rightarrow> ProcessingResult \<Rightarrow> world \<times> log_entry list \<Rightarrow> world \<times> log_entry list" where
  "log_and_quarantine cfg file_path result wl =
     (case wl of (w, lg) \<Rightarrow>
        if success result then (w, lg @ [LogInfo result])
        else
          let lg1 = lg @ [LogWarning (filename result) (error_message result)];
              w1 = mkdir_exist_ok w (processing_failed cfg)
          in case rename_path w1 file_path (processing_failed cfg, snd file_path) of
               Inr w2 \<Rightarrow> (w2, lg1)
             | Inl x \<Rightarrow> (w1, lg1 @ [LogError (snd file_path) x]))"

text \<open>One iteration of the loop of \<open>process_batch\<close> after the pipeline has returned
  \<open>result\<close> in world \<open>w1\<close>.\<close>

definition record_result :: "config \<Rightarrow> path \<Rightarrow> ProcessingResult \<Rightarrow> world \<Rightarrow> pstate \<Rightarrow> pstate" where
  "record_result cfg file_path result w1 st =
     (case log_and_quarantine cfg file_path result (w1, logged st) of
        (w2, lg) \<Rightarrow>
          \<lparr>the_world = w2, stats = update_statistics cfg result (stats st), logged = lg\<rparr>)"

text \<open>The loop of \<open>process_batch\<close>, lines 303-333, with \<open>results\<close> collected so far.\<close>

fun process_files ::
  "config \<Rightarrow> env \<Rightarrow> path list \<Rightarrow> ProcessingResult list \<Rightarrow> pstate
     \<Rightarrow> (ProcessingResult list \<times> pstate) option" where
  "process_files cfg e [] results st = Some (results, st)"
| "process_files cfg e (file_path # rest) results st =
     (case process_single_image cfg e (the_world st) file_path of
        None \<Rightarrow> None
      | Some (result, w1) \<Rightarrow>
          process_files cfg e rest (results @ [result]) (record_result cfg file_path result w1 st))"

text \<open>\<open>process_batch\<close>, lines 298-335.\<close>

definition process_batch ::
  "config \<Rightarrow> env \<Rightarrow> path list \<Rightarrow> pstate \<Rightarrow> (ProcessingResult list \<times> pstate) option" where
  "process_batch cfg e files_in st = process_files cfg e files_in [] st"

section \<open>Input enumeration\<close>

text \<open>
  Matching of one path component against a \<open>glob\<close> pattern, case-sensitively as on a
  POSIX file system: \<open>*\<close> stands for any run of characters, \<open>?\<close> for one character,
  every other character for itself. Bracket expressions and patterns of several
  components are outside this model.
\<close>

fun glob_match :: "string \<Rightarrow> string \<Rightarrow> bool" where
  "glob_match [] [] = True"
| "glob_match [] (c # cs) = False"
| "glob_match (p # ps) [] = (p = CHR ''*'' \<and> glob_match ps [])"
| "glob_match (p # ps) (c # cs) =
     (if p = CHR ''*'' then glob_match ps (c # cs) \<or> glob_match (p # ps) cs
      else if p = CHR ''?'' then glob_match ps cs
      else p = c \<and> glob_match ps cs)"

text \<open>\<open>Path.glob\<close> over the entries of a directory, in the order the system lists them.\<close>

definition glob :: "string \<Rightarrow> string list \<Rightarrow> string \<Rightarrow> path list" where
  "glob d entries pat = map (Pair d) (filter (glob_match pat) entries)"

text \<open>\<open>str.upper\<close> on ASCII text.\<close>

definition upper_char :: "char \<Rightarrow> char" where
  "upper_char c =
     (let n = (of_char c :: nat) in if 97 \<le> n \<and> n \<le> 122 then char_of (n - 32) else c)"

definition upper :: "string \<Rightarrow> string" where
  "upper s = map upper_char s"

text \<open>\<open>get_input_files\<close>, lines 286-296; \<open>entries\<close> are the names in the input directory.
  Paths of one directory are ordered by their names.\<close>

definition get_input_files :: "config \<Rightarrow> string list \<Rightarrow> path list" where
  "get_input_files cfg entries =
     sort_key snd
       (concat (map (\<lambda>ext. glob (processing_renamed cfg) entries (CHR ''*'' # ext)
                           @ glob (processing_renamed cfg) entries (CHR ''*'' # upper ext))
                    (supported_formats cfg)))"

text \<open>The specification's criterion: the name ends in the extension, letter case
  ignored.\<close>

definition matches_ignoring_case :: "string \<Rightarrow> string \<Rightarrow> bool" where
  "matches_ignoring_case ext name = suffix (upper ext) (upper name)"

text \<open>An extension without pattern characters.\<close>

definition plain_ext :: "string \<Rightarrow> bool" where
  "plain_ext ext = (CHR ''*'' \<notin> set ext \<and> CHR ''?'' \<notin> set ext \<and> CHR ''['' \<notin> set ext \<and> CHR ''/'' \<notin> set ext)"

section \<open>The specification's predicates and concrete inputs\<close>

text \<open>A rectangle \<open>(x1, y1, x2, y2)\<close> lies within an image of shape
  \<open>(height, width, depth)\<close>.\<close>

definition within_bounds :: "int \<times> int \<times> int \<times> int \<Rightarrow> nat \<times> nat \<times> nat \<Rightarrow> bool" where
  "within_bounds r image_shape =
     (case r of (x1, y1, x2, y2) \<Rightarrow>
      case image_shape of (height, width, depth) \<Rightarrow>
        0 \<le> x1 \<and> x1 \<le> x2 \<and> x2 \<le> int width \<and> 0 \<le> y1 \<and> y1 \<le> y2 \<and> y2 \<le> int height)"

definition example_config :: config where
  "example_config =
     \<lparr>processing_renamed = ''in'', processing_cropped = ''out'', processing_failed = ''failed'',
      padding_width_factor = 3 / 4, padding_height_factor = 1,
      intermediate_size = (64, 64), target_size = (32, 32),
      min_face_confidence = 1 / 2, max_file_size_kb = 1,
      jpeg_quality_start = 60, jpeg_quality_min = 40, jpeg_quality_step = 10,
      supported_formats = [''.jpg'', ''.png'']\<rparr>"

definition negative_padding_config :: config where
  "negative_padding_config = example_config\<lparr>padding_width_factor := - 1 / 2\<rparr>"

definition example_face :: face where
  "example_face = \<lparr>bbox = (40, 30, 60, 70), det_score = Some (9 / 10)\<rparr>"

definition far_face :: face where
  "far_face = \<lparr>bbox = (80, 80, 90, 90), det_score = Some (6 / 10)\<rparr>"

text \<open>Lines 270-273 and 279-282: write the encoded bytes to the output path and return
  the quality with the size in KB.\<close>

definition persist :: "world \<Rightarrow> path \<Rightarrow> int \<Rightarrow> bytes \<Rightarrow> (exn + (int \<times> rat) \<times> world)" where
  "persist w p q b = (case write_file w p b of Inl x \<Rightarrow> Inl x | Inr w' \<Rightarrow> Inr ((q, of_nat (length b) / 1024), w'))"

declare ladder_from.simps [simp del]

text \<open>A 100 x 100 image with one face; collaborators that decode the bytes \<open>raw\<close> to it,
  detect that face, resize to the requested size and encode to \<open>20 * quality + 24\<close>
  bytes; a clock that advances by one second per reading; a world with the readable
  file \<open>in/a.png\<close> and the undecodable file \<open>in/b.png\<close>.\<close>

definition example_image :: image where
  "example_image = \<lparr>rows = 100, cols = 100, chans = 3, pixel = (\<lambda>r c. [0, 0, 0])\<rparr>"

definition example_env :: env where
  "example_env =
     \<lparr>decode = (\<lambda>b. if b = ''raw'' then Some example_image else None),
      detect = (\<lambda>img. Inr [example_face]),
      resize = (\<lambda>img dsize. Inr (img\<lparr>rows := snd dsize, cols := fst dsize\<rparr>)),
      filter2D = (\<lambda>img. Inr img),
      imencode = (\<lambda>img q. Some (replicate (nat q * 20 + 24) CHR ''x'')),
      now = (\<lambda>n. of_nat n)\<rparr>"

definition oversize_env :: env where
  "oversize_env = example_env\<lparr>imencode := (\<lambda>img q. Some (replicate 2000 CHR ''x''))\<rparr>"

definition stuck_config :: config where
  "stuck_config = example_config\<lparr>jpeg_quality_step := 0\<rparr>"

definition example_world :: world where
  "example_world =
     \<lparr>files = [(''in'', ''a.png'') \<mapsto> ''raw'', (''in'', ''b.png'') \<mapsto> ''junk''],
      dirs = {''in'', ''out'', ''failed''}, ticks = 0\<rparr>"

text \<open>A detector that raises; the result and the world of the successful run on
  \<open>in/a.png\<close>; the result of line 149 for an unreadable file; a batch that lists the
  undecodable file twice.\<close>

definition broken_detector_env :: env where
  "broken_detector_env = example_env\<lparr>detect := (\<lambda>img. Inl ''model not prepared'')\<rparr>"

definition example_result :: ProcessingResult where
  "example_result =
     \<lparr>filename = ''a.png'', success = True, face_detected = True, face_confidence = 9 / 10,
      original_size = (100, 100), output_size = (32, 32), file_size_kb = 1, jpeg_quality = 50,
      error_message = NoMessage, processing_time = 1\<rparr>"

definition world_after_success :: world where
  "world_after_success =
     \<lparr>files = [(''in'', ''a.png'') \<mapsto> ''raw'', (''in'', ''b.png'') \<mapsto> ''junk'',
               (''out'', ''a.jpg'') \<mapsto> replicate 1024 CHR ''x''],
      dirs = {''in'', ''out'', ''failed''}, ticks = 2\<rparr>"

definition read_failure :: "string \<Rightarrow> ProcessingResult" where
  "read_failure name =
     \<lparr>filename = name, success = False, face_detected = False,
      face_confidence = 0, original_size = (0, 0), output_size = (0, 0),
      file_size_kb = 0, jpeg_quality = 0,
      error_message = FailedToReadImage, processing_time = 0\<rparr>"

definition example_state :: pstate where
  "example_state = \<lparr>the_world = example_world, stats = initial_stats, logged = []\<rparr>"

definition example_files :: "path list" where
  "example_files = [(''in'', ''a.png''), (''in'', ''b.png''), (''in'', ''b.png'')]"

text \<open>The sum of the four outcome counters, and a step that adds one to exactly one of
  them.\<close>

definition counters_sum :: "statistics \<Rightarrow> nat" where
  "counters_sum s = successful s + no_face s + poor_quality s + failed s"

definition increments_exactly_one :: "statistics \<Rightarrow> statistics \<Rightarrow> bool" where
  "increments_exactly_one s s' =
     ((successful s' = successful s + 1 \<and> no_face s' = no_face s
         \<and> poor_quality s' = poor_quality s \<and> failed s' = failed s)
      \<or> (successful s' = successful s \<and> no_face s' = no_face s + 1
         \<and> poor_quality s' = poor_quality s \<and> failed s' = failed s)
      \<or> (successful s' = successful s \<and> no_face s' = no_face s
         \<and> poor_quality s' = poor_quality s + 1 \<and> failed s' = failed s)
      \<or> (successful s' = successful s \<and> no_face s' = no_face s
         \<and> poor_quality s' = poor_quality s \<and> failed s' = failed s + 1))"

text \<open>The names in an input directory, as the system lists them.\<close>

definition example_entries :: "string list" where
  "example_entries = [''b.png'', ''a.JPG'', ''notes.txt'', ''a.Jpg'']"

section \<open>Properties of the crop geometry\<close>

lemma clamp_bounds: "lo \<le> hi \<Longrightarrow> lo \<le> clamp v lo hi \<and> clamp v lo hi \<le> hi"
  by (simp add: clamp_def)

lemma clamp_mono: "a \<le> b \<Longrightarrow> clamp a lo hi \<le> clamp b lo hi"
  by (auto simp: clamp_def)

lemma py_int_mono: "a \<le> b \<Longrightarrow> py_int a \<le> py_int b"
proof -
  assume ab: "a \<le> b"
  have fl: "\<lfloor>a\<rfloor> \<le> \<lfloor>b\<rfloor>" and ce: "\<lceil>a\<rceil> \<le> \<lceil>b\<rceil>"
    using ab by (simp_all add: floor_mono ceiling_mono)
  have "\<lceil>a\<rceil> \<le> \<lfloor>b\<rfloor>" if "a < 0" "0 \<le> b"
  proof -
    have "\<lceil>a\<rceil> \<le> 0" using that(1) by (simp add: ceiling_le_zero)
    moreover have "0 \<le> \<lfloor>b\<rfloor>" using that(2) by simp
    ultimately show ?thesis by linarith
  qed
  then show ?thesis
    using ab fl ce by (auto simp: py_int_def)
qed

lemma py_int_nonneg: "0 \<le> x \<Longrightarrow> 0 \<le> py_int x"
  by (simp add: py_int_def)

section \<open>C3: the crop rectangle and the image bounds\<close>

text \<open>The bounds hold for any non-negative paddings, whatever their exact value: the
  rounding of the floating-point product \<open>w * factor\<close> does not matter here.\<close>

lemma crop_region_in_bounds_for_pads:
  assumes "bbox f = (b0, b1, b2, b3)"
    and "0 \<le> py_int (of_int (py_int b2 - py_int b0) * padding_width_factor cfg)"
    and "0 \<le> py_int (of_int (py_int b3 - py_int b1) * padding_height_factor cfg)"
  shows "within_bounds (calculate_crop_region cfg f (height, width, depth)) (height, width, depth)"
proof -
  have ord: "clamp (c - p) 0 m \<le> clamp (c + p) 0 m" if "0 \<le> p" for c p m
    using that by (intro clamp_mono) simp
  show ?thesis
    using assms
    by (simp add: within_bounds_def calculate_crop_region_def Let_def ord clamp_bounds)
qed

text \<open>
  C3, as stated, fails: with the padding factor \<open>-1/2\<close> the box \<open>(40, 30, 60, 70)\<close> in a
  100 x 100 image gives the rectangle \<open>(60, 10, 40, 90)\<close>, whose left edge lies right
  of its right edge.
\<close>

theorem crop_region_negative_padding_counterexample:
  "bbox example_face = (40, 30, 60, 70) \<and> (40 :: rat) < 60 \<and> (30 :: rat) < 70
   \<and> calculate_crop_region negative_padding_config example_face (100, 100, 3) = (60, 10, 40, 90)
   \<and> \<not> within_bounds (calculate_crop_region negative_padding_config example_face (100, 100, 3))
         (100, 100, 3)"
proof -
  have r: "calculate_crop_region negative_padding_config example_face (100, 100, 3)
             = (60, 10, 40, 90)"
    by code_simp
  have b: "bbox example_face = (40, 30, 60, 70)"
    by (simp add: example_face_def)
  show ?thesis
    by (simp add: r b within_bounds_def)
qed

text \<open>
  C3, amended: for every face box with \<open>x1 < x2\<close> and \<open>y1 < y2\<close>, all non-negative
  padding factors and every image shape, the rectangle computed by
  \<open>calculate_crop_region\<close> satisfies \<open>0 \<le> x1 \<le> x2 \<le> width\<close> and \<open>0 \<le> y1 \<le> y2 \<le> height\<close>.
\<close>

theorem crop_region_within_bounds:
  assumes "bbox f = (b0, b1, b2, b3)" and "b0 < b2" and "b1 < b3"
    and "0 \<le> padding_width_factor cfg" and "0 \<le> padding_height_factor cfg"
  shows "within_bounds (calculate_crop_region cfg f (height, width, depth)) (height, width, depth)"
proof -
  have w: "0 \<le> py_int b2 - py_int b0"
    using py_int_mono[of b0 b2] assms(2) by simp
  have h: "0 \<le> py_int b3 - py_int b1"
    using py_int_mono[of b1 b3] assms(3) by simp
  have pw: "0 \<le> py_int (of_int (py_int b2 - py_int b0) * padding_width_factor cfg)"
    using w assms(4) by (intro py_int_nonneg mult_nonneg_nonneg) simp_all
  have ph: "0 \<le> py_int (of_int (py_int b3 - py_int b1) * padding_height_factor cfg)"
    using h assms(5) by (intro py_int_nonneg mult_nonneg_nonneg) simp_all
  show ?thesis
    by (rule crop_region_in_bounds_for_pads[OF assms(1) pw ph])
qed

theorem crop_region_within_bounds_witness:
  "bbox example_face = (40, 30, 60, 70) \<and> (40 :: rat) < 60 \<and> (30 :: rat) < 70
   \<and> 0 \<le> padding_width_factor example_config \<and> 0 \<le> padding_height_factor example_config
   \<and> within_bounds (calculate_crop_region example_config example_face (100, 100, 3)) (100, 100, 3)"
proof -
  have b: "bbox example_face = (40, 30, 60, 70)"
    by (simp add: example_face_def)
  have pw: "0 \<le> padding_width_factor example_config"
    and ph: "0 \<le> padding_height_factor example_config"
    by (simp_all add: example_config_def)
  have "within_bounds (calculate_crop_region example_config example_face (100, 100, 3))
          (100, 100, 3)"
    by (rule crop_region_within_bounds[OF b _ _ pw ph]) simp_all
  with b pw ph show ?thesis by simp
qed

section \<open>C1: face selection\<close>

text \<open>
  C1 says the selector picks the candidate of maximal bounding-box area
  \<open>(x2 - x1) * (y2 - y1)\<close>, the first one on ties. The code ranks by \<open>x2 * y2\<close>
  (line 179): of the faces \<open>(40, 30, 60, 70)\<close>, area 800, and \<open>(80, 80, 90, 90)\<close>,
  area 100, it selects the second, where the rule of C1 selects the first.
\<close>

theorem select_face_not_largest:
  "select_face [example_face, far_face] = Inr far_face
   \<and> spec_select_face [example_face, far_face] = Inr example_face
   \<and> bbox_area far_face < bbox_area example_face"
  by (simp add: select_face_def spec_select_face_def py_max_def face_key_def bbox_area_def
      example_face_def far_face_def)

section \<open>The quality search\<close>

lemma ladder_from_bounds: "t \<in> set (ladder_from q qmin qstep) \<Longrightarrow> t \<le> q \<and> qmin \<le> t"
proof (induction q qmin qstep rule: ladder_from.induct)
  case (1 q qmin qstep)
  from "1.prems" have c: "qmin \<le> q \<and> 1 \<le> qstep"
    by (subst (asm) ladder_from.simps) (simp split: if_splits)
  from "1.prems" c have "t = q \<or> t \<in> set (ladder_from (q - qstep) qmin qstep)"
    by (subst (asm) ladder_from.simps) simp
  then show ?case
    using "1.IH" c by auto
qed

lemma save_loop_ladder:
  assumes st: "1 \<le> jpeg_quality_step cfg"
  shows "save_loop cfg e img out w q =
     (case find (fits cfg e img) (ladder_from q (jpeg_quality_min cfg) (jpeg_quality_step cfg)) of
        Some t \<Rightarrow> Some (persist w out t (the (imencode e img t)))
      | None \<Rightarrow>
          (case imencode e img (jpeg_quality_min cfg) of
             None \<Rightarrow> Some (Inl (Exception ''Failed to encode image''))
           | Some b \<Rightarrow> Some (persist w out (jpeg_quality_min cfg) b)))"
proof (induction "nat (q - jpeg_quality_min cfg + 1)" arbitrary: q rule: less_induct)
  case less
  show ?case
  proof (cases "jpeg_quality_min cfg \<le> q")
    case False
    then have l: "ladder_from q (jpeg_quality_min cfg) (jpeg_quality_step cfg) = []"
      by (subst ladder_from.simps) simp
    show ?thesis
      using False
      by (subst save_loop.simps) (simp add: l persist_def split: option.splits sum.splits)
  next
    case True
    then have l: "ladder_from q (jpeg_quality_min cfg) (jpeg_quality_step cfg)
        = q # ladder_from (q - jpeg_quality_step cfg) (jpeg_quality_min cfg) (jpeg_quality_step cfg)"
      using st by (subst ladder_from.simps) simp
    have IH: "save_loop cfg e img out w (q - jpeg_quality_step cfg) =
     (case find (fits cfg e img) (ladder_from (q - jpeg_quality_step cfg) (jpeg_quality_min cfg) (jpeg_quality_step cfg)) of
        Some t \<Rightarrow> Some (persist w out t (the (imencode e img t)))
      | None \<Rightarrow>
          (case imencode e img (jpeg_quality_min cfg) of
             None \<Rightarrow> Some (Inl (Exception ''Failed to encode image''))
           | Some b \<Rightarrow> Some (persist w out (jpeg_quality_min cfg) b)))"
      using True st by (intro less) simp
    show ?thesis
    proof (cases "fits cfg e img q")
      case f: True
      then obtain b where b: "imencode e img q = Some b" "int (length b) \<le> max_file_size_kb cfg * 1024"
        by (auto simp: fits_def split: option.splits)
      show ?thesis
        using True f b
        by (subst save_loop.simps) (simp add: l persist_def split: sum.splits)
    next
      case f: False
      have "save_loop cfg e img out w q = save_loop cfg e img out w (q - jpeg_quality_step cfg)"
        using True f
        by (subst save_loop.simps) (simp add: fits_def split: option.splits)
      then show ?thesis
        using f by (simp add: l IH)
    qed
  qed
qed





lemma save_loop_diverges_aux:
  assumes "save_loop cfg e img out w q = Some y"
  shows "\<not> (jpeg_quality_step cfg \<le> 0 \<and> (\<forall>t. \<not> fits cfg e img t) \<and> jpeg_quality_min cfg \<le> q)"
proof (rule save_loop.raw_induct[where P = "\<lambda>cfg e img out w q y.
    \<not> (jpeg_quality_step cfg \<le> 0 \<and> (\<forall>t. \<not> fits cfg e img t) \<and> jpeg_quality_min cfg \<le> q)", OF _ assms],
    goal_cases)
  case (1 f cfg e img out w q y)
  show ?case
  proof
    assume h: "jpeg_quality_step cfg \<le> 0 \<and> (\<forall>t. \<not> fits cfg e img t) \<and> jpeg_quality_min cfg \<le> q"
    then have nf: "\<not> fits cfg e img q" by blast
    from 1(2) h nf have "f cfg e img out w (q - jpeg_quality_step cfg) = Some y"
      by (auto simp: fits_def split: option.splits if_splits)
    from 1(1)[OF this] h show False by auto
  qed
qed

lemma save_loop_diverges:
  "jpeg_quality_step cfg \<le> 0 \<Longrightarrow> \<forall>t. \<not> fits cfg e img t \<Longrightarrow> jpeg_quality_min cfg \<le> q
    \<Longrightarrow> save_loop cfg e img out w q = None"
  using save_loop_diverges_aux[of cfg e img out w q] by (cases "save_loop cfg e img out w q") auto


lemma find_ladder_highest:
  "find P (ladder_from q qmin qstep) = Some t \<Longrightarrow>
     t \<in> set (ladder_from q qmin qstep) \<and> P t
     \<and> (\<forall>u \<in> set (ladder_from q qmin qstep). t < u \<longrightarrow> \<not> P u)"
proof (induction q qmin qstep rule: ladder_from.induct)
  case (1 q qmin qstep)
  show ?case
  proof (cases "qmin \<le> q \<and> 1 \<le> qstep")
    case False
    then have "ladder_from q qmin qstep = []"
      by (subst ladder_from.simps) simp
    with "1.prems" show ?thesis by simp
  next
    case True
    then have l: "ladder_from q qmin qstep = q # ladder_from (q - qstep) qmin qstep"
      by (subst ladder_from.simps) simp
    show ?thesis
    proof (cases "P q")
      case pq: True
      with "1.prems" l have tq: "t = q" by simp
      have le: "\<not> t < u" if "u \<in> set (ladder_from q qmin qstep)" for u
        using ladder_from_bounds[OF that] tq by simp
      have "t \<in> set (ladder_from q qmin qstep)"
        using l tq by simp
      with pq tq le show ?thesis by blast
    next
      case npq: False
      with "1.prems" l have "find P (ladder_from (q - qstep) qmin qstep) = Some t" by simp
      from "1.IH"[OF True this] show ?thesis
        using npq l by auto
    qed
  qed
qed

lemma save_total:
  "1 \<le> jpeg_quality_step cfg \<Longrightarrow> \<exists>r. save_with_quality_optimization cfg e img out w = Some r"
  by (simp add: save_with_quality_optimization_def save_loop_ladder split: option.splits)

lemma save_loop_exception:
  assumes "save_loop cfg e img out w q = Some y"
  shows "\<forall>m. y = Inl (Exception m) \<longrightarrow>
           m = ''Failed to encode image'' \<and> imencode e img (jpeg_quality_min cfg) = None"
proof (rule save_loop.raw_induct[where P = "\<lambda>cfg e img out w q y.
    \<forall>m. y = Inl (Exception m) \<longrightarrow>
       m = ''Failed to encode image'' \<and> imencode e img (jpeg_quality_min cfg) = None", OF _ assms],
    goal_cases)
  case (1 f cfg e img out w q y)
  show ?case
  proof (cases "f cfg e img out w (q - jpeg_quality_step cfg) = Some y")
    case True
    from 1(1)[OF True] show ?thesis .
  next
    case False
    with 1(2) show ?thesis
      by (auto simp: write_file_def split: option.splits if_splits sum.splits)
  qed
qed

text \<open>
  C2: with a descending ladder (a step of at least 1) the encoder returns, and the
  quality it returns is the highest value on the ladder \<open>quality_start,
  quality_start - step, ...\<close> (while at least \<open>quality_min\<close>) whose encode succeeds
  within \<open>max_file_size_kb * 1024\<close> bytes; if some quality on the ladder meets the
  budget the returned size in KB is at most the budget, and otherwise the returned
  quality is \<open>quality_min\<close>. The returned size is that of the bytes written.
\<close>

theorem encoder_returns_highest_fitting_quality:
  assumes "1 \<le> jpeg_quality_step cfg"
  shows "\<exists>r. save_with_quality_optimization cfg e img out w = Some r \<and>
     (\<forall>q kb w'. r = Inr ((q, kb), w') \<longrightarrow>
        (\<exists>b. imencode e img q = Some b \<and> kb = of_nat (length b) / 1024
              \<and> write_file w out b = Inr w') \<and>
        (if \<exists>t \<in> set (ladder cfg). fits cfg e img t
         then q \<in> set (ladder cfg) \<and> fits cfg e img q
              \<and> (\<forall>t \<in> set (ladder cfg). q < t \<longrightarrow> \<not> fits cfg e img t)
              \<and> kb \<le> of_int (max_file_size_kb cfg)
         else q = jpeg_quality_min cfg))"
proof (cases "find (fits cfg e img) (ladder cfg)")
  case None
  then have nf: "\<not> (\<exists>t \<in> set (ladder cfg). fits cfg e img t)"
    by (simp add: find_None_iff)
  show ?thesis
    using None nf assms
    by (auto simp: save_with_quality_optimization_def save_loop_ladder ladder_def persist_def
        split: option.splits sum.splits)
next
  case (Some t)
  from find_ladder_highest[OF Some[unfolded ladder_def]]
  have t: "t \<in> set (ladder cfg)" "fits cfg e img t"
    "\<forall>u \<in> set (ladder cfg). t < u \<longrightarrow> \<not> fits cfg e img u"
    by (simp_all add: ladder_def)
  from t(2) obtain b where b: "imencode e img t = Some b"
    "int (length b) \<le> max_file_size_kb cfg * 1024"
    by (auto simp: fits_def split: option.splits)
  have kb: "(of_nat (length b) :: rat) / 1024 \<le> of_int (max_file_size_kb cfg)"
  proof -
    have "(of_int (int (length b)) :: rat) \<le> of_int (max_file_size_kb cfg * 1024)"
      using b(2) by (simp only: of_int_le_iff)
    then show ?thesis by simp
  qed
  have s: "save_with_quality_optimization cfg e img out w = Some (persist w out t b)"
    using Some assms b
    by (simp add: save_with_quality_optimization_def save_loop_ladder ladder_def)
  show ?thesis
    using s t b kb by (auto simp: persist_def split: sum.splits)
qed



text \<open>The ladder 60, 50, 40 with encodes of 1224, 1024 and 824 bytes and a budget of
  1 KB.\<close>

theorem encoder_returns_highest_fitting_quality_witness:
  "1 \<le> jpeg_quality_step example_config \<and>
   (\<exists>r. save_with_quality_optimization example_config example_env example_image
           (''out'', ''a.jpg'') example_world = Some r \<and>
     (\<forall>q kb w'. r = Inr ((q, kb), w') \<longrightarrow>
        (\<exists>b. imencode example_env example_image q = Some b \<and> kb = of_nat (length b) / 1024
              \<and> write_file example_world (''out'', ''a.jpg'') b = Inr w') \<and>
        (if \<exists>t \<in> set (ladder example_config). fits example_config example_env example_image t
         then q \<in> set (ladder example_config) \<and> fits example_config example_env example_image q
              \<and> (\<forall>t \<in> set (ladder example_config). q < t
                    \<longrightarrow> \<not> fits example_config example_env example_image t)
              \<and> kb \<le> of_int (max_file_size_kb example_config)
         else q = jpeg_quality_min example_config)))"
proof -
  have h: "1 \<le> jpeg_quality_step example_config"
    by (simp add: example_config_def)
  from encoder_returns_highest_fitting_quality[OF h] h show ?thesis
    by blast
qed

text \<open>
  C7: if no quality on the ladder produces an encode within the byte budget, the
  encoder performs one forced encode at \<open>quality_min\<close> and writes it whatever its
  size; and it raises the encode error \<open>Failed to encode image\<close> only if that forced
  encode fails in the codec (and no quality on the ladder met the budget).
\<close>

theorem forced_minimum_quality_encode:
  "(1 \<le> jpeg_quality_step cfg \<and> (\<forall>t \<in> set (ladder cfg). \<not> fits cfg e img t) \<longrightarrow>
      save_with_quality_optimization cfg e img out w =
        (case imencode e img (jpeg_quality_min cfg) of
           None \<Rightarrow> Some (Inl (Exception ''Failed to encode image''))
         | Some b \<Rightarrow> Some (persist w out (jpeg_quality_min cfg) b)))
   \<and> (\<forall>m. save_with_quality_optimization cfg e img out w = Some (Inl (Exception m)) \<longrightarrow>
          imencode e img (jpeg_quality_min cfg) = None
          \<and> (\<forall>t \<in> set (ladder cfg). \<not> fits cfg e img t))"
proof (intro conjI impI allI)
  assume h: "1 \<le> jpeg_quality_step cfg \<and> (\<forall>t \<in> set (ladder cfg). \<not> fits cfg e img t)"
  then have "find (fits cfg e img) (ladder cfg) = None"
    by (simp add: find_None_iff)
  with h show "save_with_quality_optimization cfg e img out w =
        (case imencode e img (jpeg_quality_min cfg) of
           None \<Rightarrow> Some (Inl (Exception ''Failed to encode image''))
         | Some b \<Rightarrow> Some (persist w out (jpeg_quality_min cfg) b))"
    by (simp add: save_with_quality_optimization_def save_loop_ladder ladder_def)
next
  fix m
  assume x: "save_with_quality_optimization cfg e img out w = Some (Inl (Exception m))"
  from save_loop_exception[OF x[unfolded save_with_quality_optimization_def]]
  show "imencode e img (jpeg_quality_min cfg) = None" by simp
next
  fix m
  assume x: "save_with_quality_optimization cfg e img out w = Some (Inl (Exception m))"
  show "\<forall>t \<in> set (ladder cfg). \<not> fits cfg e img t"
  proof (cases "1 \<le> jpeg_quality_step cfg")
    case False
    then have "ladder cfg = []"
      unfolding ladder_def by (subst ladder_from.simps) simp
    then show ?thesis by simp
  next
    case True
    have "find (fits cfg e img) (ladder cfg) = None"
    proof (cases "find (fits cfg e img) (ladder cfg)")
      case (Some t)
      with x True show ?thesis
        by (simp add: save_with_quality_optimization_def save_loop_ladder ladder_def persist_def
            write_file_def split: if_splits)
    qed simp
    then show ?thesis by (simp add: find_None_iff)
  qed
qed

text \<open>Every encode is 2000 bytes against a budget of 1 KB: the encode at quality 40 is
  written.\<close>

theorem forced_minimum_quality_encode_witness:
  "1 \<le> jpeg_quality_step example_config
   \<and> ladder example_config = [60, 50, 40]
   \<and> \<not> fits example_config oversize_env example_image 60
   \<and> \<not> fits example_config oversize_env example_image 50
   \<and> \<not> fits example_config oversize_env example_image 40
   \<and> save_with_quality_optimization example_config oversize_env example_image
        (''out'', ''a.jpg'') example_world
      = Some (persist example_world (''out'', ''a.jpg'') 40 (replicate 2000 CHR ''x''))"
proof -
  have h: "1 \<le> jpeg_quality_step example_config
     \<and> (\<forall>t \<in> set (ladder example_config). \<not> fits example_config oversize_env example_image t)"
    by (simp add: example_config_def fits_def oversize_env_def)
  have m: "imencode oversize_env example_image 40 = Some (replicate 2000 CHR ''x'')"
    "jpeg_quality_min example_config = 40"
    by (simp_all add: oversize_env_def example_config_def)
  have l: "ladder example_config = [60, 50, 40]"
    by (simp add: ladder_def example_config_def ladder_from.simps)
  have n: "\<not> fits example_config oversize_env example_image t" for t
    by (simp add: example_config_def fits_def oversize_env_def)
  from forced_minimum_quality_encode[of example_config oversize_env example_image
      "(''out'', ''a.jpg'')" example_world] h
  have "save_with_quality_optimization example_config oversize_env example_image
        (''out'', ''a.jpg'') example_world
      = Some (persist example_world (''out'', ''a.jpg'') 40 (replicate 2000 CHR ''x''))"
    by (simp add: m)
  with h l n show ?thesis
    by blast
qed

text \<open>
  C9: the quality search returns for every image when \<open>quality_step \<ge> 1\<close>; with
  \<open>quality_step \<le> 0\<close>, \<open>quality_start \<ge> quality_min\<close> and no encode within the budget
  it never returns.
\<close>

theorem quality_search_termination:
  "(1 \<le> jpeg_quality_step cfg \<longrightarrow>
      (\<exists>r. save_with_quality_optimization cfg e img out w = Some r))
   \<and> (jpeg_quality_step cfg \<le> 0 \<and> jpeg_quality_min cfg \<le> jpeg_quality_start cfg
        \<and> (\<forall>t. \<not> fits cfg e img t) \<longrightarrow>
      save_with_quality_optimization cfg e img out w = None)"
  using save_total[of cfg e img out w]
    save_loop_diverges[of cfg e img "jpeg_quality_start cfg" out w]
  by (simp add: save_with_quality_optimization_def)

theorem quality_search_termination_witness:
  "1 \<le> jpeg_quality_step example_config
   \<and> (\<exists>r. save_with_quality_optimization example_config example_env example_image
            (''out'', ''a.jpg'') example_world = Some r)
   \<and> jpeg_quality_step stuck_config \<le> 0
   \<and> jpeg_quality_min stuck_config \<le> jpeg_quality_start stuck_config
   \<and> (\<forall>t. \<not> fits stuck_config oversize_env example_image t)
   \<and> save_with_quality_optimization stuck_config oversize_env example_image
        (''out'', ''a.jpg'') example_world = None"
proof -
  have h1: "1 \<le> jpeg_quality_step example_config"
    by (simp add: example_config_def)
  have h2: "jpeg_quality_step stuck_config \<le> 0
     \<and> jpeg_quality_min stuck_config \<le> jpeg_quality_start stuck_config
     \<and> (\<forall>t. \<not> fits stuck_config oversize_env example_image t)"
    by (simp add: stuck_config_def example_config_def fits_def oversize_env_def)
  from quality_search_termination[of example_config example_env example_image
      "(''out'', ''a.jpg'')" example_world]
    quality_search_termination[of stuck_config oversize_env example_image
      "(''out'', ''a.jpg'')" example_world] h1 h2
  show ?thesis by blast
qed


section \<open>Runs on the concrete inputs\<close>

lemma example_crop:
  "calculate_crop_region example_config example_face (100, 100, 3) = (35, 10, 65, 90)"
  by code_simp

lemma example_ladder: "ladder example_config = [60, 50, 40]"
  by (simp add: ladder_def example_config_def ladder_from.simps)

lemma example_save:
  "save_with_quality_optimization example_config example_env img (''out'', ''a.jpg'') w
    = Some (persist w (''out'', ''a.jpg'') 50 (replicate 1024 CHR ''x''))"
proof -
  have s: "1 \<le> jpeg_quality_step example_config"
    by (simp add: example_config_def)
  have l: "ladder_from (jpeg_quality_start example_config) (jpeg_quality_min example_config)
      (jpeg_quality_step example_config) = [60, 50, 40]"
    using example_ladder by (simp add: ladder_def)
  have f: "\<not> fits example_config example_env img 60" "fits example_config example_env img 50"
    by (simp_all add: fits_def example_config_def example_env_def)
  have i: "imencode example_env img 50 = Some (replicate 1024 CHR ''x'')"
    by (simp add: example_env_def)
  show ?thesis
    by (simp add: save_with_quality_optimization_def save_loop_ladder[OF s] l f i)
qed

lemma example_stem: "stem ''a.png'' = ''a''"
  by (simp add: stem_def)

lemma example_env_fields:
  "decode example_env ''raw'' = Some example_image"
  "detect example_env img = Inr [example_face]"
  "resize example_env img dsize = Inr (img\<lparr>rows := snd dsize, cols := fst dsize\<rparr>)"
  "filter2D example_env img = Inr img"
  "now example_env n = of_nat n"
  by (simp_all add: example_env_def)

lemma example_image_shape:
  "rows example_image = 100" "cols example_image = 100" "chans example_image = 3"
  by (simp_all add: example_image_def)

lemma example_select: "select_face [example_face] = Inr example_face"
  by (simp add: select_face_def py_max_def)

lemma example_face_score: "det_score example_face = Some (9 / 10)"
  by (simp add: example_face_def)

lemma example_config_fields:
  "min_face_confidence example_config = 1 / 2"
  "intermediate_size example_config = (64, 64)"
  "target_size example_config = (32, 32)"
  "processing_cropped example_config = ''out''"
  "processing_failed example_config = ''failed''"
  by (simp_all add: example_config_def)

lemma example_body:
  "process_body example_config example_env (example_world\<lparr>ticks := Suc 0\<rparr>) (''in'', ''a.png'') 0
     = Some (Inr (example_result, world_after_success))"
proof -
  have r: "cv2_imread example_env (example_world\<lparr>ticks := Suc 0\<rparr>) (''in'', ''a.png'') = Some example_image"
    by (simp add: cv2_imread_def example_world_def example_env_fields)
  have p: "persist (example_world\<lparr>ticks := Suc 0\<rparr>) (''out'', ''a.jpg'') 50 (replicate 1024 CHR ''x'')
      = Inr ((50, 1), world_after_success\<lparr>ticks := Suc 0\<rparr>)"
    by (simp add: persist_def write_file_def example_world_def world_after_success_def)
  show ?thesis
    by (simp add: process_body_def r example_env_fields example_image_shape example_select
        example_face_score example_config_fields example_crop slice_image_def array_size_def
        example_stem example_save p example_result_def world_after_success_def)
qed

lemma example_success:
  "process_single_image example_config example_env example_world (''in'', ''a.png'')
     = Some (example_result, world_after_success)"
proof -
  have t: "ticks example_world = 0" by (simp add: example_world_def)
  show ?thesis
    by (simp add: process_single_image_def t example_env_fields example_body)
qed

section \<open>The per-image pipeline returns\<close>

lemma save_not_None:
  "1 \<le> jpeg_quality_step cfg \<Longrightarrow> save_with_quality_optimization cfg e img out w \<noteq> None"
  using save_total[of cfg e img out w] by auto

lemma process_body_total:
  assumes "1 \<le> jpeg_quality_step cfg"
  shows "\<exists>r. process_body cfg e w p t = Some r"
  by (simp add: process_body_def Let_def save_not_None[OF assms]
      split: option.splits sum.splits prod.splits)

lemma cv2_imread_ticks [simp]: "cv2_imread e (w\<lparr>ticks := n\<rparr>) p = cv2_imread e w p"
  by (simp add: cv2_imread_def)

lemma process_single_image_total:
  assumes "1 \<le> jpeg_quality_step cfg"
  shows "\<exists>r w'. process_single_image cfg e w p = Some (r, w')"
proof -
  obtain b where b: "process_body cfg e (w\<lparr>ticks := Suc (ticks w)\<rparr>) p (now e (ticks w)) = Some b"
    using process_body_total[OF assms] by blast
  show ?thesis
    by (cases b) (auto simp: process_single_image_def b)
qed

lemma read_failure_body:
  "cv2_imread e w p = None \<Longrightarrow>
   process_body cfg e w p t =
     Some (Inr (\<lparr>filename = snd p, success = False, face_detected = False,
                 face_confidence = 0, original_size = (0, 0), output_size = (0, 0),
                 file_size_kb = 0, jpeg_quality = 0,
                 error_message = FailedToReadImage, processing_time = 0\<rparr>, w))"
  by (simp add: process_body_def)

lemma read_failure_image:
  "cv2_imread e w p = None \<Longrightarrow>
   process_single_image cfg e w p = Some (read_failure (snd p), w\<lparr>ticks := Suc (ticks w)\<rparr>)"
  by (simp add: process_single_image_def read_failure_body read_failure_def)

lemma process_body_filename:
  "process_body cfg e w p t = Some (Inr (r, w')) \<Longrightarrow> filename r = snd p"
  by (auto simp: process_body_def Let_def split: option.splits sum.splits prod.splits if_splits)

lemma process_single_image_filename:
  "process_single_image cfg e w p = Some (r, w') \<Longrightarrow> filename r = snd p"
  by (auto simp: process_single_image_def Let_def dest: process_body_filename
      split: option.splits sum.splits)

lemma oversize_env_fields:
  "decode oversize_env ''raw'' = Some example_image"
  "detect oversize_env img = Inr [example_face]"
  "resize oversize_env img dsize = Inr (img\<lparr>rows := snd dsize, cols := fst dsize\<rparr>)"
  "filter2D oversize_env img = Inr img"
  "now oversize_env n = of_nat n"
  by (simp_all add: oversize_env_def example_env_def)

lemma stuck_config_fields:
  "min_face_confidence stuck_config = 1 / 2"
  "intermediate_size stuck_config = (64, 64)"
  "target_size stuck_config = (32, 32)"
  "processing_cropped stuck_config = ''out''"
  by (simp_all add: stuck_config_def example_config_def)

lemma stuck_crop:
  "calculate_crop_region stuck_config example_face (100, 100, 3) = (35, 10, 65, 90)"
  by code_simp

lemma stuck_save:
  "save_with_quality_optimization stuck_config oversize_env img out w = None"
  unfolding save_with_quality_optimization_def
  by (rule save_loop_diverges)
    (simp_all add: stuck_config_def example_config_def fits_def oversize_env_def)

lemma broken_detector_body:
  "process_body example_config broken_detector_env (example_world\<lparr>ticks := Suc (ticks example_world)\<rparr>)
     (''in'', ''a.png'') (now broken_detector_env (ticks example_world))
    = Some (Inl (DetectorError ''model not prepared''))"
proof -
  have r: "cv2_imread broken_detector_env example_world (''in'', ''a.png'') = Some example_image"
    by (simp add: cv2_imread_def example_world_def broken_detector_env_def example_env_def)
  have d: "detect broken_detector_env img = Inl ''model not prepared''" for img
    by (simp add: broken_detector_env_def)
  show ?thesis
    by (simp add: process_body_def r d)
qed

text \<open>
  C5, as stated, fails: the pipeline is not total. With \<open>jpeg_quality_step = 0\<close> and a
  codec whose every encode is 2000 bytes against a budget of 1 KB, the pipeline on a
  readable image with a confident face never returns.
\<close>

theorem pipeline_never_returns_counterexample:
  "process_single_image stuck_config oversize_env example_world (''in'', ''a.png'') = None"
proof -
  have r: "cv2_imread oversize_env example_world (''in'', ''a.png'') = Some example_image"
    by (simp add: cv2_imread_def example_world_def oversize_env_fields)
  have "process_body stuck_config oversize_env (example_world\<lparr>ticks := Suc (ticks example_world)\<rparr>)
          (''in'', ''a.png'') (now oversize_env (ticks example_world)) = None"
    by (simp add: process_body_def r oversize_env_fields example_image_shape example_select
        example_face_score stuck_config_fields stuck_crop slice_image_def array_size_def
        stuck_save)
  then show ?thesis
    by (simp add: process_single_image_def)
qed

text \<open>
  C5, amended: provided \<open>jpeg_quality_step \<ge> 1\<close>, the per-image pipeline returns a
  \<open>ProcessingResult\<close> for every input and propagates no exception; an exception raised
  at any stage inside it is converted into a failure outcome that carries the
  exception's message and the time elapsed since the pipeline was entered.
\<close>

theorem pipeline_returns_and_converts_exceptions:
  assumes "1 \<le> jpeg_quality_step cfg"
  shows "\<exists>r w'. process_single_image cfg e w p = Some (r, w') \<and>
     (\<forall>x. process_body cfg e (w\<lparr>ticks := Suc (ticks w)\<rparr>) p (now e (ticks w)) = Some (Inl x) \<longrightarrow>
          \<not> success r \<and> error_message r = ExceptionText (str_exn x)
          \<and> processing_time r = now e (Suc (ticks w)) - now e (ticks w))"
proof -
  obtain b where b: "process_body cfg e (w\<lparr>ticks := Suc (ticks w)\<rparr>) p (now e (ticks w)) = Some b"
    using process_body_total[OF assms] by blast
  show ?thesis
    by (cases b) (auto simp: process_single_image_def b)
qed

theorem pipeline_returns_and_converts_exceptions_witness:
  "1 \<le> jpeg_quality_step example_config \<and>
   process_body example_config broken_detector_env
      (example_world\<lparr>ticks := Suc (ticks example_world)\<rparr>) (''in'', ''a.png'')
      (now broken_detector_env (ticks example_world))
     = Some (Inl (DetectorError ''model not prepared'')) \<and>
   (\<exists>r w'. process_single_image example_config broken_detector_env example_world (''in'', ''a.png'')
        = Some (r, w')
      \<and> \<not> success r \<and> error_message r = ExceptionText ''model not prepared''
      \<and> processing_time r = 1)"
proof -
  have h: "1 \<le> jpeg_quality_step example_config"
    by (simp add: example_config_def)
  have n: "now broken_detector_env (Suc (ticks example_world)) - now broken_detector_env (ticks example_world) = 1"
    by (simp add: broken_detector_env_def example_env_def example_world_def)
  from pipeline_returns_and_converts_exceptions[OF h, of broken_detector_env example_world "(''in'', ''a.png'')"]
  obtain r w' where rw: "process_single_image example_config broken_detector_env example_world (''in'', ''a.png'') = Some (r, w')"
    and c: "\<forall>x. process_body example_config broken_detector_env
      (example_world\<lparr>ticks := Suc (ticks example_world)\<rparr>) (''in'', ''a.png'')
      (now broken_detector_env (ticks example_world)) = Some (Inl x) \<longrightarrow>
          \<not> success r \<and> error_message r = ExceptionText (str_exn x)
          \<and> processing_time r = now broken_detector_env (Suc (ticks example_world)) - now broken_detector_env (ticks example_world)"
    by blast
  from c broken_detector_body n have "\<not> success r \<and> error_message r = ExceptionText ''model not prepared''
      \<and> processing_time r = 1"
    by simp
  with rw h broken_detector_body show ?thesis by blast
qed

section \<open>Classification of outcomes\<close>

text \<open>
  C10: a failure outcome for an unreadable image, and one produced from any exception,
  carries \<open>face_detected = False\<close> and confidence 0, and the statistics update counts
  it under \<open>no_face\<close>, not under \<open>failed\<close>.
\<close>

theorem early_failures_counted_as_no_face:
  assumes "process_single_image cfg e w p = Some (r, w')"
    and "cv2_imread e w p = None
         \<or> (\<exists>x. process_body cfg e (w\<lparr>ticks := Suc (ticks w)\<rparr>) p (now e (ticks w)) = Some (Inl x))"
  shows "\<not> success r \<and> \<not> face_detected r \<and> face_confidence r = 0
     \<and> update_statistics cfg r s = s\<lparr>total_files := total_files s + 1, no_face := no_face s + 1\<rparr>"
proof -
  from assms(2) have "\<not> success r \<and> \<not> face_detected r \<and> face_confidence r = 0"
  proof
    assume "cv2_imread e w p = None"
    then have "cv2_imread e (w\<lparr>ticks := Suc (ticks w)\<rparr>) p = None" by simp
    from read_failure_body[OF this] assms(1) show ?thesis
      by (auto simp: process_single_image_def)
  next
    assume "\<exists>x. process_body cfg e (w\<lparr>ticks := Suc (ticks w)\<rparr>) p (now e (ticks w)) = Some (Inl x)"
    with assms(1) show ?thesis
      by (auto simp: process_single_image_def)
  qed
  then show ?thesis
    by (simp add: update_statistics_def Let_def)
qed

theorem early_failures_counted_as_no_face_witness:
  "process_single_image example_config example_env example_world (''in'', ''b.png'')
     = Some (read_failure ''b.png'', example_world\<lparr>ticks := Suc (ticks example_world)\<rparr>)
   \<and> cv2_imread example_env example_world (''in'', ''b.png'') = None
   \<and> \<not> face_detected (read_failure ''b.png'') \<and> face_confidence (read_failure ''b.png'') = 0
   \<and> update_statistics example_config (read_failure ''b.png'') initial_stats
        = initial_stats\<lparr>total_files := total_files initial_stats + 1,
                         no_face := no_face initial_stats + 1\<rparr>
   \<and> (\<exists>r w'. process_single_image example_config broken_detector_env example_world (''in'', ''a.png'')
          = Some (r, w')
        \<and> process_body example_config broken_detector_env
            (example_world\<lparr>ticks := Suc (ticks example_world)\<rparr>) (''in'', ''a.png'')
            (now broken_detector_env (ticks example_world))
           = Some (Inl (DetectorError ''model not prepared''))
        \<and> \<not> face_detected r \<and> face_confidence r = 0
        \<and> update_statistics example_config r initial_stats
             = initial_stats\<lparr>total_files := total_files initial_stats + 1,
                              no_face := no_face initial_stats + 1\<rparr>)"
proof -
  have r: "cv2_imread example_env example_world (''in'', ''b.png'') = None"
    by (simp add: cv2_imread_def example_world_def example_env_def)
  have p: "process_single_image example_config example_env example_world (''in'', ''b.png'')
     = Some (read_failure ''b.png'', example_world\<lparr>ticks := Suc (ticks example_world)\<rparr>)"
    using read_failure_image[OF r, of example_config] by simp
  have h: "1 \<le> jpeg_quality_step example_config"
    by (simp add: example_config_def)
  obtain r2 w2 where p2: "process_single_image example_config broken_detector_env example_world
      (''in'', ''a.png'') = Some (r2, w2)"
    using process_single_image_total[OF h] by blast
  from early_failures_counted_as_no_face[OF p, of initial_stats] r
    early_failures_counted_as_no_face[OF p2, of initial_stats] broken_detector_body p p2
  show ?thesis by blast
qed

lemma update_statistics_exactly_one:
  "increments_exactly_one s (update_statistics cfg r s)"
  by (simp add: increments_exactly_one_def update_statistics_def Let_def)

lemma update_statistics_total:
  "total_files (update_statistics cfg r s) = total_files s + 1"
  by (simp add: update_statistics_def Let_def)

lemma update_statistics_sum:
  "counters_sum (update_statistics cfg r s) = counters_sum s + 1"
  by (simp add: counters_sum_def update_statistics_def Let_def)

lemma record_result_stats:
  "stats (record_result cfg p r w1 st) = update_statistics cfg r (stats st)"
  by (simp add: record_result_def split: prod.splits)

lemma process_files_counts:
  "process_files cfg e fs results st = Some (rs, st') \<Longrightarrow>
     total_files (stats st') = total_files (stats st) + length fs
     \<and> counters_sum (stats st') = counters_sum (stats st) + length fs
     \<and> length rs = length results + length fs"
proof (induction fs arbitrary: results st)
  case Nil
  then show ?case by simp
next
  case (Cons p fs)
  from Cons.prems obtain r w1 where
    a: "process_single_image cfg e (the_world st) p = Some (r, w1)" and
    b: "process_files cfg e fs (results @ [r]) (record_result cfg p r w1 st) = Some (rs, st')"
    by (auto split: option.splits)
  from Cons.IH[OF b] show ?case
    by (simp add: record_result_stats update_statistics_total update_statistics_sum)
qed

lemma example_batch:
  "\<exists>st'. process_batch example_config example_env example_files example_state
      = Some ([example_result, read_failure ''b.png'', read_failure ''b.png''], st')
    \<and> stats st' = \<lparr>total_files = 3, successful = 1, failed = 0, no_face = 2, poor_quality = 0\<rparr>
    \<and> files (the_world st') (''failed'', ''b.png'') = Some ''junk''
    \<and> files (the_world st') (''in'', ''b.png'') = None
    \<and> files (the_world st') (''in'', ''a.png'') = Some ''raw''
    \<and> logged st' = [LogInfo example_result, LogWarning ''b.png'' FailedToReadImage,
          LogWarning ''b.png'' FailedToReadImage,
          LogError ''b.png'' (OSError ''[Errno 2] No such file or directory'')]"
proof -
  define st1 where
    "st1 = record_result example_config (''in'', ''a.png'') example_result world_after_success example_state"
  have p1: "process_single_image example_config example_env (the_world example_state) (''in'', ''a.png'')
      = Some (example_result, world_after_success)"
    by (simp add: example_state_def example_success)
  have w_st1: "the_world st1 = world_after_success"
    and l_st1: "logged st1 = [LogInfo example_result]"
    and s_st1: "stats st1 = \<lparr>total_files = 1, successful = 1, failed = 0, no_face = 0, poor_quality = 0\<rparr>"
    by (simp_all add: st1_def record_result_def log_and_quarantine_def update_statistics_def
        example_state_def initial_stats_def example_result_def)
  have r2: "cv2_imread example_env (the_world st1) (''in'', ''b.png'') = None"
    by (simp add: w_st1 cv2_imread_def world_after_success_def example_env_def)
  define w2 where "w2 = (the_world st1)\<lparr>ticks := Suc (ticks (the_world st1))\<rparr>"
  have p2: "process_single_image example_config example_env (the_world st1) (''in'', ''b.png'')
      = Some (read_failure ''b.png'', w2)"
    using read_failure_image[OF r2, of example_config] by (simp add: w2_def)
  define st2 where
    "st2 = record_result example_config (''in'', ''b.png'') (read_failure ''b.png'') w2 st1"
  have f2: "files (the_world st1) (''in'', ''b.png'') = Some ''junk''"
    by (simp add: w_st1 world_after_success_def)
  have d2: "''failed'' \<in> insert ''failed'' (dirs (the_world st1))"
    by simp
  have w_st2: "files (the_world st2)
      = ((files (the_world st1))((''in'', ''b.png'') := None))((''failed'', ''b.png'') \<mapsto> ''junk'')"
    and l_st2: "logged st2 = [LogInfo example_result, LogWarning ''b.png'' FailedToReadImage]"
    and s_st2: "stats st2 = \<lparr>total_files = 2, successful = 1, failed = 0, no_face = 1, poor_quality = 0\<rparr>"
    by (simp_all add: st2_def w2_def record_result_def log_and_quarantine_def update_statistics_def
        read_failure_def rename_path_def mkdir_exist_ok_def f2 example_config_fields l_st1 s_st1)
  have f3: "files (the_world st2) (''in'', ''b.png'') = None"
    by (simp add: w_st2)
  have r3: "cv2_imread example_env (the_world st2) (''in'', ''b.png'') = None"
    by (simp add: cv2_imread_def f3)
  define w3 where "w3 = (the_world st2)\<lparr>ticks := Suc (ticks (the_world st2))\<rparr>"
  have p3: "process_single_image example_config example_env (the_world st2) (''in'', ''b.png'')
      = Some (read_failure ''b.png'', w3)"
    using read_failure_image[OF r3, of example_config] by (simp add: w3_def)
  define st3 where
    "st3 = record_result example_config (''in'', ''b.png'') (read_failure ''b.png'') w3 st2"
  have w_st3: "files (the_world st3) = files (the_world st2)"
    and l_st3: "logged st3 = [LogInfo example_result, LogWarning ''b.png'' FailedToReadImage,
          LogWarning ''b.png'' FailedToReadImage,
          LogError ''b.png'' (OSError ''[Errno 2] No such file or directory'')]"
    and s_st3: "stats st3 = \<lparr>total_files = 3, successful = 1, failed = 0, no_face = 2, poor_quality = 0\<rparr>"
    by (simp_all add: st3_def w3_def record_result_def log_and_quarantine_def update_statistics_def
        read_failure_def rename_path_def mkdir_exist_ok_def f3 example_config_fields
        l_st2 s_st2)
  have "process_batch example_config example_env example_files example_state
      = Some ([example_result, read_failure ''b.png'', read_failure ''b.png''], st3)"
    by (simp only: process_batch_def example_files_def process_files.simps p1 p2 p3
        option.case prod.case st1_def[symmetric] st2_def[symmetric] st3_def[symmetric]
        append.simps)
  then show ?thesis
    by (intro exI[of _ st3]) (simp add: s_st3 l_st3 w_st3 w_st2 w_st1 world_after_success_def)
qed

text \<open>
  C4: for every processed image the batch loop adds one to exactly one of the counters
  \<open>successful\<close>, \<open>no_face\<close>, \<open>poor_quality\<close>, \<open>failed\<close> (and one to the total); after
  the batch the total equals the sum of the four counters whenever it did before, as
  it does for the fresh statistics, and has grown by the number of files.
\<close>

theorem statistics_partition:
  "increments_exactly_one (stats st) (stats (record_result cfg p r w1 st))
   \<and> total_files (stats (record_result cfg p r w1 st)) = total_files (stats st) + 1
   \<and> (process_batch cfg e fs st = Some (rs, st')
        \<and> total_files (stats st) = counters_sum (stats st) \<longrightarrow>
      total_files (stats st') = counters_sum (stats st')
      \<and> total_files (stats st') = total_files (stats st) + length fs)"
  using process_files_counts[of cfg e fs "[]" st rs st']
  by (simp add: record_result_stats update_statistics_exactly_one update_statistics_total
      process_batch_def)

theorem statistics_partition_witness:
  "total_files (stats example_state) = counters_sum (stats example_state)
   \<and> (\<exists>st'. process_batch example_config example_env example_files example_state
          = Some ([example_result, read_failure ''b.png'', read_failure ''b.png''], st')
        \<and> stats st' = \<lparr>total_files = 3, successful = 1, failed = 0, no_face = 2, poor_quality = 0\<rparr>
        \<and> total_files (stats st') = counters_sum (stats st')
        \<and> total_files (stats st') = total_files (stats example_state) + length example_files)
   \<and> increments_exactly_one (stats example_state)
        (stats (record_result example_config (''in'', ''a.png'') example_result
           world_after_success example_state))"
proof -
  have h: "total_files (stats example_state) = counters_sum (stats example_state)"
    by (simp add: example_state_def initial_stats_def counters_sum_def)
  from example_batch obtain st' where
    b: "process_batch example_config example_env example_files example_state
          = Some ([example_result, read_failure ''b.png'', read_failure ''b.png''], st')"
    and s: "stats st' = \<lparr>total_files = 3, successful = 1, failed = 0, no_face = 2, poor_quality = 0\<rparr>"
    by blast
  from statistics_partition[of example_state example_config "(''in'', ''a.png'')" example_result
      world_after_success example_env example_files
      "[example_result, read_failure ''b.png'', read_failure ''b.png'']" st'] b h s
  show ?thesis by blast
qed

section \<open>Quarantine\<close>

lemma process_files_total:
  assumes "1 \<le> jpeg_quality_step cfg"
  shows "\<exists>rs st'. process_files cfg e fs results st = Some (rs, st')
           \<and> map filename rs = map filename results @ map snd fs"
proof (induction fs arbitrary: results st)
  case Nil
  show ?case by simp
next
  case (Cons p fs)
  obtain r w1 where a: "process_single_image cfg e (the_world st) p = Some (r, w1)"
    using process_single_image_total[OF assms] by blast
  from Cons.IH[of "results @ [r]" "record_result cfg p r w1 st"]
  show ?case
    by (simp add: a process_single_image_filename[OF a])
qed

text \<open>
  C8: a successful image leaves the world as the pipeline left it (nothing is moved);
  for a failed image the source file is moved, under its own name, into the
  quarantine directory; when the move fails (the source is gone) the error is logged
  after the warning and the world's files stay as they were; and the batch goes on to
  return one result per file, in order.
\<close>

theorem failed_images_are_quarantined:
  "(success r \<longrightarrow> the_world (record_result cfg p r w1 st) = w1)
   \<and> (\<not> success r \<longrightarrow>
        (\<forall>b. files w1 p = Some b \<longrightarrow>
           files (the_world (record_result cfg p r w1 st)) (processing_failed cfg, snd p) = Some b
           \<and> (p \<noteq> (processing_failed cfg, snd p) \<longrightarrow>
                files (the_world (record_result cfg p r w1 st)) p = None)
           \<and> logged (record_result cfg p r w1 st)
                = logged st @ [LogWarning (filename r) (error_message r)])
        \<and> (files w1 p = None \<longrightarrow>
             files (the_world (record_result cfg p r w1 st)) = files w1
             \<and> logged (record_result cfg p r w1 st)
                = logged st @ [LogWarning (filename r) (error_message r),
                      LogError (snd p) (OSError ''[Errno 2] No such file or directory'')]))
   \<and> (1 \<le> jpeg_quality_step cfg \<longrightarrow>
        (\<exists>rs st'. process_batch cfg e fs st = Some (rs, st') \<and> map filename rs = map snd fs))"
proof (intro conjI impI allI)
  assume "1 \<le> jpeg_quality_step cfg"
  from process_files_total[OF this, of e fs "[]" st]
  show "\<exists>rs st'. process_batch cfg e fs st = Some (rs, st') \<and> map filename rs = map snd fs"
    by (simp add: process_batch_def)
qed (simp_all add: record_result_def log_and_quarantine_def rename_path_def mkdir_exist_ok_def)

theorem failed_images_are_quarantined_witness:
  "success example_result
   \<and> the_world (record_result example_config (''in'', ''a.png'') example_result
        world_after_success example_state) = world_after_success
   \<and> \<not> success (read_failure ''b.png'')
   \<and> files example_world (''in'', ''b.png'') = Some ''junk''
   \<and> files (the_world (record_result example_config (''in'', ''b.png'') (read_failure ''b.png'')
        example_world example_state)) (''failed'', ''b.png'') = Some ''junk''
   \<and> files (the_world (record_result example_config (''in'', ''b.png'') (read_failure ''b.png'')
        example_world example_state)) (''in'', ''b.png'') = None
   \<and> files example_world (''in'', ''c.png'') = None
   \<and> logged (record_result example_config (''in'', ''c.png'') (read_failure ''c.png'')
        example_world example_state)
      = [LogWarning ''c.png'' FailedToReadImage,
         LogError ''c.png'' (OSError ''[Errno 2] No such file or directory'')]
   \<and> 1 \<le> jpeg_quality_step example_config
   \<and> (\<exists>rs st'. process_batch example_config example_env example_files example_state
          = Some (rs, st') \<and> map filename rs = map snd example_files)"
proof -
  have a: "success example_result" "\<not> success (read_failure ''b.png'')"
    "\<not> success (read_failure ''c.png'')"
    by (simp_all add: example_result_def read_failure_def)
  have f: "files example_world (''in'', ''b.png'') = Some ''junk''"
    "files example_world (''in'', ''c.png'') = None"
    by (simp_all add: example_world_def)
  have n: "(''in'', ''b.png'') \<noteq> (processing_failed example_config, snd (''in'', ''b.png''))"
    "processing_failed example_config = ''failed''"
    "1 \<le> jpeg_quality_step example_config"
    by (simp_all add: example_config_def)
  have m: "filename (read_failure ''c.png'') = ''c.png''"
    "error_message (read_failure ''c.png'') = FailedToReadImage"
    "logged example_state = []"
    by (simp_all add: read_failure_def example_state_def)
  from failed_images_are_quarantined[of example_result example_config "(''in'', ''a.png'')"
      world_after_success example_state example_env example_files]
    failed_images_are_quarantined[of "read_failure ''b.png''" example_config "(''in'', ''b.png'')"
      example_world example_state example_env example_files]
    failed_images_are_quarantined[of "read_failure ''c.png''" example_config "(''in'', ''c.png'')"
      example_world example_state example_env example_files]
    a f n m
  show ?thesis by simp
qed


section \<open>Input enumeration and order\<close>

lemma example_enumeration:
  "get_input_files example_config example_entries = [(''in'', ''a.JPG''), (''in'', ''b.png'')]"
  by code_simp

lemma upper_char_special:
  assumes "upper_char c = d" and "of_char d < (65 :: nat) \<or> (90 :: nat) < of_char d"
  shows "c = d"
proof (cases "97 \<le> (of_char c :: nat) \<and> (of_char c :: nat) \<le> 122")
  case False
  with assms(1) show ?thesis by (simp add: upper_char_def Let_def)
next
  case True
  with assms(1) have "d = char_of ((of_char c :: nat) - 32)"
    by (simp add: upper_char_def Let_def)
  then have "(of_char d :: nat) = ((of_char c :: nat) - 32) mod 256"
    by (simp only: of_char_of)
  moreover have "((of_char c :: nat) - 32) mod 256 = of_char c - 32"
    using True by (intro mod_less) linarith
  ultimately have "(of_char d :: nat) = of_char c - 32" by (simp only:)
  with True assms(2) show ?thesis by linarith
qed

lemma plain_ext_upper:
  assumes "plain_ext ext"
  shows "plain_ext (upper ext)"
proof -
  have "d \<notin> set (upper ext)"
    if d: "d \<in> {CHR ''*'', CHR ''?'', CHR ''['', CHR ''/''}" "d \<notin> set ext" for d
  proof
    assume "d \<in> set (upper ext)"
    then obtain c where c: "c \<in> set ext" "upper_char c = d"
      by (auto simp: upper_def)
    from d(1) have "of_char d < (65 :: nat) \<or> (90 :: nat) < of_char d"
      by auto
    from upper_char_special[OF c(2) this] c(1) d(2) show False
      by simp
  qed
  with assms show ?thesis
    by (simp add: plain_ext_def)
qed

lemma glob_match_literal:
  "CHR ''*'' \<notin> set p \<Longrightarrow> CHR ''?'' \<notin> set p \<Longrightarrow> glob_match p s \<longleftrightarrow> p = s"
proof (induction p s rule: glob_match.induct)
  case 1
  show ?case by simp
next
  case (2 c cs)
  show ?case by simp
next
  case (3 p ps)
  then show ?case by auto
next
  case (4 p ps c cs)
  then show ?case by auto
qed

lemma glob_match_star:
  assumes "CHR ''*'' \<notin> set ext" and "CHR ''?'' \<notin> set ext"
  shows "glob_match (CHR ''*'' # ext) name \<longleftrightarrow> suffix ext name"
proof (induction name)
  case Nil
  show ?case using glob_match_literal[OF assms, of "[]"] by simp
next
  case (Cons c cs)
  show ?case
    using glob_match_literal[OF assms, of "c # cs"] Cons.IH
    by (simp add: suffix_Cons)
qed

lemma set_glob_star:
  assumes "plain_ext ext"
  shows "set (glob d entries (CHR ''*'' # ext)) = {(d, n) | n. n \<in> set entries \<and> suffix ext n}"
  using assms by (auto simp: glob_def plain_ext_def glob_match_star)

text \<open>
  C6, as stated, fails: with the configured extension \<open>.jpg\<close> the file \<open>a.Jpg\<close>, whose
  extension matches when letter case is ignored, is not selected; the two patterns
  globbed are \<open>*.jpg\<close> and \<open>*.JPG\<close>, matched case-sensitively.
\<close>

theorem mixed_case_extension_counterexample:
  "''.jpg'' \<in> set (supported_formats example_config)
   \<and> matches_ignoring_case ''.jpg'' ''a.Jpg''
   \<and> ''a.Jpg'' \<in> set example_entries
   \<and> (''in'', ''a.Jpg'') \<notin> set (get_input_files example_config example_entries)"
proof -
  have "matches_ignoring_case ''.jpg'' ''a.Jpg''"
    by code_simp
  then show ?thesis
    by (simp add: example_enumeration) (simp add: example_config_def example_entries_def)
qed

text \<open>
  C6, amended: for extensions without pattern characters, input enumeration selects
  exactly the entries of the input directory whose name ends in a configured
  extension as written or in its upper-cased form, and the files are returned, hence
  processed, in the lexicographic order of their names.
\<close>

theorem input_files_enumerated_and_sorted:
  assumes "\<forall>ext \<in> set (supported_formats cfg). plain_ext ext"
  shows "set (get_input_files cfg entries) =
           {(processing_renamed cfg, n) | n. n \<in> set entries
              \<and> (\<exists>ext \<in> set (supported_formats cfg). suffix ext n \<or> suffix (upper ext) n)}
         \<and> sorted (map snd (get_input_files cfg entries))"
proof
  have "set (glob (processing_renamed cfg) entries (CHR ''*'' # ext)
             @ glob (processing_renamed cfg) entries (CHR ''*'' # upper ext))
        = {(processing_renamed cfg, n) | n. n \<in> set entries
              \<and> (suffix ext n \<or> suffix (upper ext) n)}"
    if "ext \<in> set (supported_formats cfg)" for ext
  proof -
    from that assms have p: "plain_ext ext" by blast
    show ?thesis
      by (auto simp: set_glob_star[OF p] set_glob_star[OF plain_ext_upper[OF p]])
  qed
  then show "set (get_input_files cfg entries) =
           {(processing_renamed cfg, n) | n. n \<in> set entries
              \<and> (\<exists>ext \<in> set (supported_formats cfg). suffix ext n \<or> suffix (upper ext) n)}"
    unfolding get_input_files_def by (simp del: set_append) blast
next
  show "sorted (map snd (get_input_files cfg entries))"
    by (simp add: get_input_files_def)
qed

theorem input_files_enumerated_and_sorted_witness:
  "supported_formats example_config = [''.jpg'', ''.png'']
   \<and> plain_ext ''.jpg'' \<and> plain_ext ''.png''
   \<and> get_input_files example_config example_entries = [(''in'', ''a.JPG''), (''in'', ''b.png'')]
   \<and> set (get_input_files example_config example_entries) =
           {(processing_renamed example_config, n) | n. n \<in> set example_entries
              \<and> (\<exists>ext \<in> set (supported_formats example_config).
                    suffix ext n \<or> suffix (upper ext) n)}
   \<and> sorted (map snd (get_input_files example_config example_entries))"
proof -
  have h: "\<forall>ext \<in> set (supported_formats example_config). plain_ext ext"
    by (simp add: example_config_def plain_ext_def)
  have f: "supported_formats example_config = [''.jpg'', ''.png'']"
    "plain_ext ''.jpg''" "plain_ext ''.png''"
    by (simp_all add: example_config_def plain_ext_def)
  from input_files_enumerated_and_sorted[OF h, of example_entries] f example_enumeration
  show ?thesis by blast
qed


end
